theory Spec2Isabelle
  imports Complex_Main
begin

section \<open>Values of the JavaScript program\<close>

text \<open>
  The background script of the extension (\<^verbatim>\<open>src/background.js\<close>) keeps one run record, a
  buffer of encounters, a battle counter and the last logged wave in module-level
  variables. Session snapshots and the metadata of a finished run reach it as decoded
  JSON (the body of an intercepted request, or a message of the popup), so a value is a
  JSON value, or \<^verbatim>\<open>undefined\<close> for a property that is not there.

  A number is the exact value of a finite double: \<^verbatim>\<open>NaN\<close> and the infinities have no JSON
  text. An object is the list of its own properties in insertion order, with one entry
  per key. (JavaScript enumerates keys that look like array indices before the others;
  the list keeps them where they were inserted, and no statement below depends on the
  order of the properties of an object.)
\<close>

datatype jsval =
    JUndefined
  | JNull
  | JBool bool
  | JNum rat
  | JStr string
  | JArr "jsval list"
  | JObj "(string \<times> jsval) list"

type_synonym obj = "(string \<times> jsval) list"

datatype error = TypeError

text \<open>\<^verbatim>\<open>!v\<close> is false exactly on the truthy values.\<close>

fun truthy :: "jsval \<Rightarrow> bool" where
  "truthy JUndefined = False"
| "truthy JNull = False"
| "truthy (JBool b) = b"
| "truthy (JNum n) = (n \<noteq> 0)"
| "truthy (JStr s) = (s \<noteq> [])"
| "truthy (JArr xs) = True"
| "truthy (JObj kvs) = True"

text \<open>Reading a property of \<^verbatim>\<open>null\<close> or \<^verbatim>\<open>undefined\<close> throws a TypeError.\<close>

fun nullish :: "jsval \<Rightarrow> bool" where
  "nullish JUndefined = True"
| "nullish JNull = True"
| "nullish v = False"

text \<open>\<^verbatim>\<open>o[k]\<close> on an object: the value of the own property, \<^verbatim>\<open>undefined\<close> without one.\<close>

definition obj_get :: "obj \<Rightarrow> string \<Rightarrow> jsval" where
  "obj_get kvs k = (case map_of kvs k of Some v \<Rightarrow> v | None \<Rightarrow> JUndefined)"

text \<open>
  \<^verbatim>\<open>v.k\<close> on a value that is not nullish, for the property names the script reads
  (\<^verbatim>\<open>enemyParty\<close>, \<^verbatim>\<open>waveIndex\<close>, \<^verbatim>\<open>species\<close>, \<^verbatim>\<open>level\<close>): no number, string, boolean or array
  has a property of these names, and a decoded object has its own properties and those
  of \<^verbatim>\<open>Object.prototype\<close>, which has none of these names.
\<close>

fun get_prop :: "jsval \<Rightarrow> string \<Rightarrow> jsval" where
  "get_prop (JObj kvs) k = obj_get kvs k"
| "get_prop v k = JUndefined"

text \<open>
  \<^verbatim>\<open>o[k] = v\<close>: an existing property keeps its place, a new one goes last.
\<close>

fun obj_set :: "string \<Rightarrow> jsval \<Rightarrow> obj \<Rightarrow> obj" where
  "obj_set k v [] = [(k, v)]"
| "obj_set k v ((k', v') # kvs) =
     (if k' = k then (k, v) # kvs else (k', v') # obj_set k v kvs)"

subsection \<open>The run object and its prototype\<close>

text \<open>
  The run is the one object the script assigns to under keys it does not choose (line 41),
  and an assignment \<^verbatim>\<open>o[k] = v\<close> looks at the prototype chain of \<^verbatim>\<open>o\<close>. So the run is its
  own properties together with its prototype: \<^verbatim>\<open>Object.prototype\<close> for the object literal of
  \<^verbatim>\<open>startRun\<close>, and afterwards what an assignment under \<^verbatim>\<open>__proto__\<close> made it: nothing
  (\<^verbatim>\<open>null\<close>), or a decoded object or array, whose own prototype is the built-in one.
\<close>

datatype prototype = ObjectPrototype | NoPrototype | Inherits jsval

record run_object =
  own :: obj
  proto :: prototype

text \<open>
  \<^verbatim>\<open>Object.prototype\<close> has one property with a setter, \<^verbatim>\<open>__proto__\<close>. An assignment under that
  key reaches the setter when neither the object nor an object on its chain has an own
  property of the name (a decoded object can have one, an array cannot) and the chain
  does not end before \<^verbatim>\<open>Object.prototype\<close>.
\<close>

fun reaches_setter :: "prototype \<Rightarrow> bool" where
  "reaches_setter ObjectPrototype = True"
| "reaches_setter NoPrototype = False"
| "reaches_setter (Inherits (JObj kvs)) = (map_of kvs ''__proto__'' = None)"
| "reaches_setter (Inherits v) = True"

text \<open>
  \<^verbatim>\<open>r[k] = v\<close> on the run. The setter of \<^verbatim>\<open>__proto__\<close> makes an object, an array or \<^verbatim>\<open>null\<close>
  the prototype of the run and ignores any other value; it makes no property. Every
  other assignment writes an own property: all properties on the chain are writable data
  properties.
\<close>

definition run_set :: "string \<Rightarrow> jsval \<Rightarrow> run_object \<Rightarrow> run_object" where
  "run_set k v r =
     (if k = ''__proto__'' \<and> map_of (own r) k = None \<and> reaches_setter (proto r)
      then (case v of
              JNull \<Rightarrow> r\<lparr>proto := NoPrototype\<rparr>
            | JObj kvs \<Rightarrow> r\<lparr>proto := Inherits v\<rparr>
            | JArr xs \<Rightarrow> r\<lparr>proto := Inherits v\<rparr>
            | _ \<Rightarrow> r)
      else r\<lparr>own := obj_set k v (own r)\<rparr>)"

text \<open>
  \<^verbatim>\<open>r.k\<close> on the run, for the one name the script reads from it, \<^verbatim>\<open>run_id\<close>: the own
  property, or else the one inherited; no built-in prototype has a property of that name.
\<close>

fun proto_get :: "prototype \<Rightarrow> string \<Rightarrow> jsval" where
  "proto_get (Inherits (JObj kvs)) k = obj_get kvs k"
| "proto_get p k = JUndefined"

definition run_get :: "run_object \<Rightarrow> string \<Rightarrow> jsval" where
  "run_get r k = (case map_of (own r) k of Some v \<Rightarrow> v | None \<Rightarrow> proto_get (proto r) k)"

text \<open>
  \<^verbatim>\<open>Object.assign(target, source)\<close> on the run: each own property of the source is assigned
  in turn, by \<^verbatim>\<open>target[k] = v\<close>.
\<close>

definition object_assign :: "run_object \<Rightarrow> obj \<Rightarrow> run_object" where
  "object_assign target source = fold (\<lambda>(k, v) t. run_set k v t) source target"

subsection \<open>Decimal digits of the battle counter\<close>

text \<open>
  \<^verbatim>\<open>battleIndex\<close> starts at 0 and is only ever incremented, so it is a natural number
  (the double of the script counts exactly up to \<open>2 ^ 53\<close>), and its \<^verbatim>\<open>toString()\<close> is
  its decimal numeral.
\<close>

definition digit :: "nat \<Rightarrow> char" where
  "digit d = ''0123456789'' ! (d mod 10)"

fun nat_to_string :: "nat \<Rightarrow> string" where
  "nat_to_string n =
     (if n < 10 then [digit n] else nat_to_string (n div 10) @ [digit (n mod 10)])"

declare nat_to_string.simps [simp del]

text \<open>\<^verbatim>\<open>s.padStart(n, c)\<close> for a one-character pad string.\<close>

definition padStart :: "nat \<Rightarrow> char \<Rightarrow> string \<Rightarrow> string" where
  "padStart n c s = replicate (n - length s) c @ s"

text \<open>
  The own enumerable properties \<^verbatim>\<open>Object.assign\<close> copies from \<^verbatim>\<open>runMeta\<close>, under the guard
  \<^verbatim>\<open>runMeta && typeof runMeta === "object"\<close>: an object gives its properties, an array its
  elements under their indices, and \<^verbatim>\<open>null\<close> (whose \<^verbatim>\<open>typeof\<close> is \<^verbatim>\<open>"object"\<close>, but which is
  falsy) and every other value give nothing.
\<close>

fun assign_source :: "jsval \<Rightarrow> obj option" where
  "assign_source (JObj kvs) = Some kvs"
| "assign_source (JArr xs) = Some (zip (map nat_to_string [0..<length xs]) xs)"
| "assign_source v = None"

section \<open>The tracking state\<close>

text \<open>
  An entry of \<^verbatim>\<open>encounterBuffer\<close>, as pushed by \<^verbatim>\<open>logEncounterFromSession\<close>; the field
  \<open>enc_notes\<close> is the property \<^verbatim>\<open>notes\<close>.
\<close>

record encounter =
  encounter_id :: string
  battle_index :: nat
  enemy_species :: jsval
  enemy_type1 :: jsval
  enemy_type2 :: jsval
  enemy_level :: jsval
  is_boss :: bool
  encounter_result :: jsval
  enemy_ended_run :: bool
  enc_notes :: jsval

text \<open>
  The \<^verbatim>\<open>payload\<close> of \<^verbatim>\<open>endRun\<close>: the run document. Its JSON text has the own properties of
  the run, \<open>own (run p)\<close>, and nothing of its prototype.
\<close>

record payload =
  run :: run_object
  encounters :: "encounter list"

text \<open>
  One call of \<^verbatim>\<open>browserApi.downloads.download\<close>. The \<^verbatim>\<open>url\<close> is the data URL of the JSON
  text of the payload; the model keeps the payload it serialises.
\<close>

record download =
  url :: payload
  filename :: string
  saveAs :: bool

datatype console_entry = Log "jsval list" | Warn "jsval list"

text \<open>
  The module-level variables, and the two output channels the functions write to: the
  console and the download requests, oldest first.
\<close>

record state =
  currentRun :: "run_object option"
  encounterBuffer :: "encounter list"
  battleIndex :: nat
  lastLoggedWaveIndex :: "rat option"
  console :: "console_entry list"
  downloads :: "download list"

definition init_state :: state where
  "init_state =
     \<lparr>currentRun = None, encounterBuffer = [], battleIndex = 0,
      lastLoggedWaveIndex = None, console = [], downloads = []\<rparr>"

text \<open>
  What the script calls and \<^verbatim>\<open>src/\<close> does not hold: \<^verbatim>\<open>Utils.convertPokemonId\<close>, a lookup of
  the species code, and the language's conversion to a string of a value that is not a
  string (it can throw), which a template literal applies.
\<close>

record env =
  convertPokemonId :: "jsval \<Rightarrow> jsval"
  toStringOther :: "jsval \<Rightarrow> error + string"

definition template_string :: "env \<Rightarrow> jsval \<Rightarrow> error + string" where
  "template_string e v = (case v of JStr s \<Rightarrow> Inr s | _ \<Rightarrow> toStringOther e v)"

section \<open>The operations\<close>

text \<open>
  \<^verbatim>\<open>startRun\<close> (lines 12 to 29). \<^verbatim>\<open>now\<close> is the text of \<^verbatim>\<open>new Date().toISOString()\<close>.
\<close>

definition new_run :: "string \<Rightarrow> run_object" where
  "new_run now =
     \<lparr>own =
        [(''run_id'', JStr (''run_'' @ now)),
         (''start_timestamp'', JStr now),
         (''end_timestamp'', JNull),
         (''result'', JNull),
         (''final_stage'', JNull),
         (''final_boss'', JNull),
         (''starter_species'', JNull),
         (''total_battles'', JNull),
         (''run_tag'', JNull)],
      proto = ObjectPrototype\<rparr>"

definition startRun :: "string \<Rightarrow> state \<Rightarrow> state" where
  "startRun now st =
     st\<lparr>currentRun := Some (new_run now),
        encounterBuffer := [],
        battleIndex := 0,
        lastLoggedWaveIndex := None,
        console := console st @
          [Log [JStr ''Pokerogue tracker: started run'', JStr (''run_'' @ now)]]\<rparr>"

text \<open>\<^verbatim>\<open>run_id.replace(/[:]/g, "-")\<close> on a string.\<close>

definition replace_colons :: "string \<Rightarrow> string" where
  "replace_colons s = map (\<lambda>c. if c = CHR '':'' then CHR ''-'' else c) s"

text \<open>
  Lines 37 to 44 of \<^verbatim>\<open>endRun\<close>, which write into the run object: the end time, then the
  properties of the metadata, then the number of buffered encounters \<open>n\<close>.
\<close>

definition finish_run :: "string \<Rightarrow> jsval \<Rightarrow> nat \<Rightarrow> run_object \<Rightarrow> run_object" where
  "finish_run now runMeta n r =
     (let r1 = run_set ''end_timestamp'' (JStr now) r;
          r2 = (case assign_source runMeta of
                  Some source \<Rightarrow> object_assign r1 source
                | None \<Rightarrow> r1)
      in run_set ''total_battles'' (JNum (of_nat n)) r2)"

text \<open>
  \<^verbatim>\<open>endRun\<close> (lines 31 to 83). The run object is changed in place, so what lines 37 to 44
  did to it stays when line 58 throws: \<^verbatim>\<open>replace\<close> is a method of strings only, and the
  merge of line 41 can leave any value under \<^verbatim>\<open>run_id\<close>. The callback of the download,
  which logs later, is not part of the call.
\<close>

definition endRun :: "string \<Rightarrow> jsval \<Rightarrow> state \<Rightarrow> error option \<times> state" where
  "endRun now runMeta st =
     (case currentRun st of
        None \<Rightarrow>
          (None, st\<lparr>console := console st @
             [Warn [JStr ''Pokerogue tracker: endRun called but no active run'']]\<rparr>)
      | Some r \<Rightarrow>
          let r' = finish_run now runMeta (length (encounterBuffer st)) r
          in (case run_get r' ''run_id'' of
                JStr rid \<Rightarrow>
                  (None,
                   \<lparr>currentRun = None, encounterBuffer = [], battleIndex = 0,
                    lastLoggedWaveIndex = None,
                    console = console st @
                      [Log [JStr ''Pokerogue tracker: ended run'', JStr rid, JStr ''with'',
                            JNum (of_nat (length (encounterBuffer st))),
                            JStr ''encounters'']],
                    downloads = downloads st @
                      [\<lparr>url = \<lparr>run = r', encounters = encounterBuffer st\<rparr>,
                        filename = ''pokerogue_runs/'' @ replace_colons rid @ ''.json'',
                        saveAs = False\<rparr>]\<rparr>)
              | _ \<Rightarrow> (Some TypeError, st\<lparr>currentRun := Some r'\<rparr>)))"

text \<open>
  Lines 163 and 164: the wave of a snapshot, a number or \<^verbatim>\<open>null\<close>.
\<close>

definition wave_of :: "jsval \<Rightarrow> rat option" where
  "wave_of sessionData =
     (case get_prop sessionData ''waveIndex'' of JNum w \<Rightarrow> Some w | _ \<Rightarrow> None)"

definition wave_val :: "rat option \<Rightarrow> jsval" where
  "wave_val w = (case w of Some n \<Rightarrow> JNum n | None \<Rightarrow> JNull)"

text \<open>
  \<^verbatim>\<open>logEncounterFromSession\<close> (lines 154 to 205). Nothing is written before the two places
  that can throw (line 172 on a first enemy that is \<^verbatim>\<open>null\<close>, line 173 on a run id that is
  no string), so an error leaves the state as it was.
\<close>

definition logEncounterFromSession :: "env \<Rightarrow> jsval \<Rightarrow> state \<Rightarrow> error option \<times> state" where
  "logEncounterFromSession e sessionData st =
     (case currentRun st of
        None \<Rightarrow> (None, st)
      | Some r \<Rightarrow>
          if \<not> truthy sessionData then (None, st)
          else
            (case get_prop sessionData ''enemyParty'' of
               JArr (firstEnemy # others) \<Rightarrow>
                 let waveIndex = wave_of sessionData in
                 if waveIndex \<noteq> None \<and> waveIndex = lastLoggedWaveIndex st then (None, st)
                 else if nullish firstEnemy then (Some TypeError, st)
                 else
                   let pokemonId = convertPokemonId e (get_prop firstEnemy ''species'') in
                   (case template_string e (run_get r ''run_id'') of
                      Inl err \<Rightarrow> (Some err, st)
                    | Inr rid \<Rightarrow>
                        let encounterId =
                              rid @ ''_'' @
                              padStart 3 (CHR ''0'') (nat_to_string (battleIndex st))
                        in (None,
                            st\<lparr>console := console st @
                                 [Log [JStr ''Pokerogue tracker: logging encounter'',
                                       JStr encounterId, JStr ''waveIndex:'',
                                       wave_val waveIndex, JStr ''enemy_species:'',
                                       pokemonId, JStr ''enemy_level:'',
                                       get_prop firstEnemy ''level'']],
                               encounterBuffer := encounterBuffer st @
                                 [\<lparr>encounter_id = encounterId,
                                   battle_index = battleIndex st,
                                   enemy_species = pokemonId,
                                   enemy_type1 = JNull,
                                   enemy_type2 = JNull,
                                   enemy_level =
                                     (if truthy (get_prop firstEnemy ''level'')
                                      then get_prop firstEnemy ''level'' else JNull),
                                   is_boss = False,
                                   encounter_result = JNull,
                                   enemy_ended_run = False,
                                   enc_notes = JNull\<rparr>],
                               battleIndex := battleIndex st + 1,
                               lastLoggedWaveIndex :=
                                 (case waveIndex of
                                    Some w \<Rightarrow> Some w
                                  | None \<Rightarrow> lastLoggedWaveIndex st)\<rparr>))
             | _ \<Rightarrow> (None, st)))"

text \<open>
  The two messages of the popup, in the \<^verbatim>\<open>onMessage\<close> listener (lines 237 to 253). The
  result is the response passed to \<^verbatim>\<open>sendResponse\<close>, if the handler got that far, the
  error it threw, and the state. \<^verbatim>\<open>END_RUN\<close> carries \<^verbatim>\<open>request.runMeta\<close>.
\<close>

datatype request = START_RUN | END_RUN jsval

fun onMessage :: "string \<Rightarrow> request \<Rightarrow> state \<Rightarrow> jsval option \<times> error option \<times> state" where
  "onMessage now START_RUN st =
     (let st' = startRun now st
      in (Some (JObj [(''success'', JBool True),
                      (''run_id'', (case currentRun st' of
                                      Some r \<Rightarrow> run_get r ''run_id''
                                    | None \<Rightarrow> JNull))]),
          None, st'))"
| "onMessage now (END_RUN runMeta) st =
     (case endRun now (if truthy runMeta then runMeta else JObj []) st of
        (Some err, st') \<Rightarrow> (None, Some err, st')
      | (None, st') \<Rightarrow> (Some (JObj [(''success'', JBool True)]), None, st'))"

text \<open>
  Snapshots reach \<^verbatim>\<open>logEncounterFromSession\<close> one event at a time, each call on the state
  the one before left. A call that throws has written nothing, and its error ends that
  event only (the interception handler catches it).
\<close>

definition deliver :: "env \<Rightarrow> jsval list \<Rightarrow> state \<Rightarrow> state" where
  "deliver e snapshots st = fold (\<lambda>s t. snd (logEncounterFromSession e s t)) snapshots st"

section \<open>Snapshots the logger accepts\<close>

text \<open>
  A snapshot of the shape the logger is written for: a truthy value whose \<^verbatim>\<open>enemyParty\<close> is
  a non-empty array with a first element that has properties to read.
\<close>

definition first_enemy :: "jsval \<Rightarrow> jsval" where
  "first_enemy s =
     (case get_prop s ''enemyParty'' of JArr (x # xs) \<Rightarrow> x | _ \<Rightarrow> JUndefined)"

definition valid_snapshot :: "jsval \<Rightarrow> bool" where
  "valid_snapshot s =
     (truthy s \<and>
      (case get_prop s ''enemyParty'' of
         JArr (firstEnemy # others) \<Rightarrow> \<not> nullish firstEnemy
       | _ \<Rightarrow> False))"

text \<open>
  No snapshot of the sequence repeats the wave logged just before it, \<open>prev\<close> being the
  wave logged before the sequence; a snapshot without a numeric wave repeats nothing.
\<close>

fun fresh_waves :: "rat option \<Rightarrow> jsval list \<Rightarrow> bool" where
  "fresh_waves prev [] = True"
| "fresh_waves prev (s # ss) =
     (case wave_of s of
        None \<Rightarrow> fresh_waves prev ss
      | Some w \<Rightarrow> prev \<noteq> Some w \<and> fresh_waves (Some w) ss)"

fun is_string :: "jsval \<Rightarrow> bool" where
  "is_string (JStr s) = True"
| "is_string v = False"

text \<open>
  The metadata gives \<^verbatim>\<open>run_id\<close> no value that is not a string, so that line 58 finds a
  string to call \<^verbatim>\<open>replace\<close> on.
\<close>

definition keeps_run_id_string :: "jsval \<Rightarrow> bool" where
  "keeps_run_id_string runMeta =
     (case assign_source runMeta of
        None \<Rightarrow> True
      | Some source \<Rightarrow> list_all (\<lambda>(k, v). k \<noteq> ''run_id'' \<or> is_string v) source)"

text \<open>A collaborator for concrete runs: the species code is its own identifier.\<close>

definition plain_env :: env where
  "plain_env = \<lparr>convertPokemonId = (\<lambda>v. v), toStringOther = (\<lambda>v. Inl TypeError)\<rparr>"

text \<open>
  A snapshot as the game sends it, with one enemy, for concrete runs, and a start time.
\<close>

definition snapshot :: "rat \<Rightarrow> rat \<Rightarrow> rat \<Rightarrow> jsval" where
  "snapshot wave species level =
     JObj [(''waveIndex'', JNum wave),
           (''enemyParty'', JArr [JObj [(''species'', JNum species), (''level'', JNum level)]]),
           (''party'', JArr []),
           (''arena'', JObj [])]"

definition noon :: string where
  "noon = ''2024-01-01T12:00:00.000Z''"

definition evening :: string where
  "evening = ''2024-01-01T18:30:00.000Z''"

section \<open>Facts about objects\<close>

lemma obj_get_obj_set:
  "obj_get (obj_set k v kvs) k' = (if k' = k then v else obj_get kvs k')"
  by (induction kvs) (auto simp: obj_get_def)

lemma map_of_obj_set: "map_of (obj_set k v kvs) = (map_of kvs)(k \<mapsto> v)"
  by (induction kvs) auto

lemma own_object_assign_absent:
  assumes "k \<notin> fst ` set source"
  shows "map_of (own (object_assign t source)) k = map_of (own t) k"
  using assms unfolding object_assign_def
proof (induction source arbitrary: t)
  case Nil
  show ?case by simp
next
  case (Cons p source)
  obtain k' v' where p: "p = (k', v')" by (cases p)
  have "k' \<noteq> k"
    using Cons.prems by (auto simp: p)
  then have "map_of (own (run_set k' v' t)) k = map_of (own t) k"
    by (auto simp: run_set_def map_of_obj_set split: jsval.splits)
  then show ?case
    using Cons.IH [of "run_set k' v' t"] Cons.prems by (simp add: p)
qed

text \<open>
  An assignment on the run writes the own property of its key, unless the key is
  \<^verbatim>\<open>__proto__\<close>; and it touches no property of another key.
\<close>

lemma obj_get_own_run_set:
  assumes "k' \<noteq> ''__proto__'' \<or> k \<noteq> ''__proto__''"
  shows "obj_get (own (run_set k v r)) k' = (if k' = k then v else obj_get (own r) k')"
  using assms by (auto simp: run_set_def obj_get_obj_set split: jsval.splits)

lemma run_set_plain:
  assumes "k \<noteq> ''__proto__''"
  shows "own (run_set k v r) = obj_set k v (own r)" and "proto (run_set k v r) = proto r"
  using assms by (simp_all add: run_set_def)

lemma obj_get_own_object_assign:
  assumes "k \<noteq> ''__proto__'' \<or> k \<notin> fst ` set source"
  shows "obj_get (own (object_assign t source)) k =
     (case map_of (rev source) k of Some v \<Rightarrow> v | None \<Rightarrow> obj_get (own t) k)"
  using assms unfolding object_assign_def
proof (induction source arbitrary: t)
  case Nil
  show ?case by simp
next
  case (Cons p source)
  obtain k' v' where p: "p = (k', v')" by (cases p)
  have tl: "k \<noteq> ''__proto__'' \<or> k \<notin> fst ` set source"
    using Cons.prems by auto
  have hd: "k \<noteq> ''__proto__'' \<or> k' \<noteq> ''__proto__''"
    using Cons.prems by (auto simp: p)
  show ?case
    by (simp add: p Cons.IH [OF tl] obj_get_own_run_set [OF hd] map_add_def
        split: option.splits)
qed

text \<open>
  A source with one entry per key leaves a run without an own \<^verbatim>\<open>__proto__\<close>, whose
  assignments under that key reach the setter, without such a property.
\<close>

lemma no_own_proto_object_assign:
  assumes "map_of (own t) ''__proto__'' = None" and "reaches_setter (proto t)"
    and "distinct (map fst source)"
  shows "map_of (own (object_assign t source)) ''__proto__'' = None"
  using assms
proof (induction source arbitrary: t)
  case Nil
  then show ?case by (simp add: object_assign_def)
next
  case (Cons p source)
  obtain k v where p: "p = (k, v)" by (cases p)
  have step: "object_assign t (p # source) = object_assign (run_set k v t) source"
    by (simp add: object_assign_def p)
  show ?case
  proof (cases "k = ''__proto__''")
    case True
    then have absent: "''__proto__'' \<notin> fst ` set source"
      using Cons.prems(3) by (auto simp: p)
    have o: "own (run_set k v t) = own t"
      using True Cons.prems(1,2) by (simp add: run_set_def split: jsval.splits)
    show ?thesis
      unfolding step
      using own_object_assign_absent [OF absent, of "run_set k v t"] Cons.prems(1)
      by (simp add: o)
  next
    case False
    have o: "map_of (own (run_set k v t)) ''__proto__'' = None"
      using False Cons.prems(1) by (simp add: run_set_def map_of_obj_set)
    have q: "reaches_setter (proto (run_set k v t))"
      using False Cons.prems(2) by (simp add: run_set_def)
    show ?thesis
      unfolding step using Cons.IH [OF o q] Cons.prems(3) by simp
  qed
qed

lemma map_of_rev_distinct:
  assumes "distinct (map fst kvs)" and "(k, v) \<in> set kvs"
  shows "map_of (rev kvs) k = Some v"
proof -
  have "distinct (map fst (rev kvs))"
    using assms(1) by (simp add: rev_map [symmetric])
  moreover have "(k, v) \<in> set (rev kvs)"
    using assms(2) by simp
  ultimately show ?thesis by (rule map_of_is_SomeI)
qed

lemma map_of_rev_absent:
  assumes "k \<notin> fst ` set kvs"
  shows "map_of (rev kvs) k = None"
  using assms by (simp add: map_of_eq_None_iff)

text \<open>The own properties of the run after lines 37 to 44, property by property.\<close>

lemma obj_get_finish_run:
  assumes "k \<noteq> ''__proto__'' \<or>
           (case assign_source runMeta of
              None \<Rightarrow> True
            | Some source \<Rightarrow> k \<notin> fst ` set source)"
  shows "obj_get (own (finish_run now runMeta n r)) k =
     (if k = ''total_battles'' then JNum (of_nat n)
      else case assign_source runMeta of
             None \<Rightarrow> (if k = ''end_timestamp'' then JStr now else obj_get (own r) k)
           | Some source \<Rightarrow>
               (case map_of (rev source) k of
                  Some v \<Rightarrow> v
                | None \<Rightarrow> (if k = ''end_timestamp'' then JStr now else obj_get (own r) k)))"
proof (cases "assign_source runMeta")
  case None
  then show ?thesis
    by (simp add: finish_run_def Let_def run_set_plain obj_get_obj_set)
next
  case (Some source)
  then have "k \<noteq> ''__proto__'' \<or> k \<notin> fst ` set source"
    using assms by simp
  from obj_get_own_object_assign [OF this] Some
  show ?thesis
    by (simp add: finish_run_def Let_def run_set_plain obj_get_obj_set
        split: option.splits)
qed

lemma run_get_own:
  assumes "obj_get (own r) k = JStr s"
  shows "run_get r k = JStr s"
  using assms by (simp add: run_get_def obj_get_def split: option.splits)

lemma finish_run_keeps_string_id:
  assumes "obj_get (own r) ''run_id'' = JStr rid" and "keeps_run_id_string runMeta"
  shows "is_string (obj_get (own (finish_run now runMeta n r)) ''run_id'')"
proof (cases "assign_source runMeta")
  case None
  then show ?thesis by (simp add: obj_get_finish_run assms(1))
next
  case (Some source)
  show ?thesis
  proof (cases "map_of (rev source) ''run_id''")
    case None
    then show ?thesis by (simp add: obj_get_finish_run Some assms(1))
  next
    case (Some v)
    then have "(''run_id'', v) \<in> set source"
      using map_of_SomeD by fastforce
    then have "is_string v"
      using assms(2) \<open>assign_source runMeta = Some source\<close>
      by (auto simp: keeps_run_id_string_def list_all_iff)
    then show ?thesis
      by (simp add: obj_get_finish_run \<open>assign_source runMeta = Some source\<close> Some)
  qed
qed

text \<open>
  Without an own \<^verbatim>\<open>__proto__\<close> before, and with the setter in reach, the finished run has
  none either.
\<close>

lemma no_own_proto_finish_run:
  assumes "map_of (own r) ''__proto__'' = None" and "reaches_setter (proto r)"
    and "assign_source runMeta = Some source" and "distinct (map fst source)"
  shows "map_of (own (finish_run now runMeta n r)) ''__proto__'' = None"
proof -
  let ?r1 = "run_set ''end_timestamp'' (JStr now) r"
  have a: "map_of (own ?r1) ''__proto__'' = None" "reaches_setter (proto ?r1)"
    using assms(1,2) by (simp_all add: run_set_plain map_of_obj_set)
  from no_own_proto_object_assign [OF a assms(4)]
  show ?thesis
    by (simp add: finish_run_def Let_def assms(3) run_set_plain map_of_obj_set)
qed

section \<open>Facts about the operations\<close>

lemma is_string_iff: "is_string v \<longleftrightarrow> (\<exists>s. v = JStr s)"
  by (cases v) simp_all

lemma endRun_emits:
  assumes "currentRun st = Some r"
    and "run_get (finish_run now runMeta (length (encounterBuffer st)) r) ''run_id'' = JStr rid"
  shows "endRun now runMeta st =
     (None,
      \<lparr>currentRun = None, encounterBuffer = [], battleIndex = 0,
       lastLoggedWaveIndex = None,
       console = console st @
         [Log [JStr ''Pokerogue tracker: ended run'', JStr rid, JStr ''with'',
               JNum (of_nat (length (encounterBuffer st))), JStr ''encounters'']],
       downloads = downloads st @
         [\<lparr>url = \<lparr>run = finish_run now runMeta (length (encounterBuffer st)) r,
                  encounters = encounterBuffer st\<rparr>,
           filename = ''pokerogue_runs/'' @ replace_colons rid @ ''.json'',
           saveAs = False\<rparr>]\<rparr>)"
  using assms by (simp add: endRun_def Let_def)

lemma endRun_throws:
  assumes "currentRun st = Some r"
    and "\<not> is_string (run_get (finish_run now runMeta (length (encounterBuffer st)) r) ''run_id'')"
  shows "endRun now runMeta st =
     (Some TypeError,
      st\<lparr>currentRun := Some (finish_run now runMeta (length (encounterBuffer st)) r)\<rparr>)"
  using assms by (auto simp: endRun_def Let_def is_string_iff split: jsval.splits)

lemma endRun_ok_string:
  assumes "currentRun st = Some r" and "fst (endRun now runMeta st) = None"
  shows "is_string (run_get (finish_run now runMeta (length (encounterBuffer st)) r) ''run_id'')"
  using assms endRun_throws [of st r now runMeta] by fastforce

lemma log_accepts:
  assumes "currentRun st = Some r" and "run_get r ''run_id'' = JStr rid"
    and "valid_snapshot s"
    and "wave_of s = None \<or> wave_of s \<noteq> lastLoggedWaveIndex st"
  shows "\<exists>enc c. logEncounterFromSession e s st =
     (None, st\<lparr>console := console st @ [c],
               encounterBuffer := encounterBuffer st @ [enc],
               battleIndex := battleIndex st + 1,
               lastLoggedWaveIndex :=
                 (case wave_of s of Some w \<Rightarrow> Some w | None \<Rightarrow> lastLoggedWaveIndex st)\<rparr>)
     \<and> battle_index enc = battleIndex st
     \<and> enemy_level enc =
         (if truthy (get_prop (first_enemy s) ''level'')
          then get_prop (first_enemy s) ''level'' else JNull)"
  using assms
  by (auto simp: logEncounterFromSession_def valid_snapshot_def template_string_def
      Let_def first_enemy_def split: jsval.splits list.splits)

lemma log_repeats:
  assumes "wave_of s = Some w" and "lastLoggedWaveIndex st = Some w"
  shows "logEncounterFromSession e s st = (None, st)"
  using assms
  by (simp add: logEncounterFromSession_def Let_def split: option.splits jsval.splits list.splits)

lemma deliver_Nil: "deliver e [] st = st"
  by (simp add: deliver_def)

lemma deliver_Cons:
  "deliver e (s # ss) st = deliver e ss (snd (logEncounterFromSession e s st))"
  by (simp add: deliver_def)

lemma deliver_valid:
  assumes "currentRun st = Some r" and "run_get r ''run_id'' = JStr rid"
    and "\<forall>s\<in>set ss. valid_snapshot s"
    and "fresh_waves (lastLoggedWaveIndex st) ss"
  shows "currentRun (deliver e ss st) = Some r \<and>
         downloads (deliver e ss st) = downloads st \<and>
         battleIndex (deliver e ss st) = battleIndex st + length ss \<and>
         map battle_index (encounterBuffer (deliver e ss st)) =
           map battle_index (encounterBuffer st) @
           [battleIndex st ..< battleIndex st + length ss]"
  using assms
proof (induction ss arbitrary: st)
  case Nil
  then show ?case by (simp add: deliver_def)
next
  case (Cons s ss)
  have w: "wave_of s = None \<or> wave_of s \<noteq> lastLoggedWaveIndex st"
    using Cons.prems(4) by (auto split: option.splits)
  from log_accepts [OF Cons.prems(1,2) _ w, of e] Cons.prems(3)
  obtain enc c where
    step: "logEncounterFromSession e s st =
     (None, st\<lparr>console := console st @ [c],
               encounterBuffer := encounterBuffer st @ [enc],
               battleIndex := battleIndex st + 1,
               lastLoggedWaveIndex :=
                 (case wave_of s of Some w \<Rightarrow> Some w | None \<Rightarrow> lastLoggedWaveIndex st)\<rparr>)"
    and bi: "battle_index enc = battleIndex st"
    by auto
  let ?st' = "snd (logEncounterFromSession e s st)"
  have fw: "fresh_waves (lastLoggedWaveIndex ?st') ss"
    using Cons.prems(4) by (auto simp: step split: option.splits)
  have IH: "currentRun (deliver e ss ?st') = Some r \<and>
         downloads (deliver e ss ?st') = downloads ?st' \<and>
         battleIndex (deliver e ss ?st') = battleIndex ?st' + length ss \<and>
         map battle_index (encounterBuffer (deliver e ss ?st')) =
           map battle_index (encounterBuffer ?st') @
           [battleIndex ?st' ..< battleIndex ?st' + length ss]"
    by (rule Cons.IH) (use Cons.prems fw in \<open>auto simp: step\<close>)
  have f: "battleIndex ?st' = Suc (battleIndex st)"
    "encounterBuffer ?st' = encounterBuffer st @ [enc]"
    "downloads ?st' = downloads st"
    by (simp_all add: step)
  have u: "[battleIndex st ..< battleIndex st + length (s # ss)] =
           battleIndex st # [Suc (battleIndex st) ..< Suc (battleIndex st) + length ss]"
    by (subst upt_conv_Cons) simp_all
  show ?case
    unfolding deliver_Cons u using IH by (simp add: f bi)
qed

text \<open>One valid snapshot in a state with an active run: what the call leaves.\<close>

lemma log_step:
  assumes "currentRun st = Some r" and "run_get r ''run_id'' = JStr rid"
    and "valid_snapshot s"
  shows "fst (logEncounterFromSession e s st) = None"
    and "currentRun (snd (logEncounterFromSession e s st)) = Some r"
    and "lastLoggedWaveIndex (snd (logEncounterFromSession e s st)) =
           (case wave_of s of Some w \<Rightarrow> Some w | None \<Rightarrow> lastLoggedWaveIndex st)"
    and "length (encounterBuffer (snd (logEncounterFromSession e s st))) =
           length (encounterBuffer st) +
           (if wave_of s \<noteq> None \<and> wave_of s = lastLoggedWaveIndex st then 0 else 1)"
    and "wave_of s \<noteq> None \<and> wave_of s = lastLoggedWaveIndex st \<Longrightarrow>
           snd (logEncounterFromSession e s st) = st"
proof -
  have rep: "logEncounterFromSession e s st = (None, st)"
    if "wave_of s \<noteq> None \<and> wave_of s = lastLoggedWaveIndex st"
  proof -
    from that obtain w where w: "wave_of s = Some w"
      by (metis not_None_eq)
    with that have "lastLoggedWaveIndex st = Some w"
      by simp
    with w show ?thesis
      by (rule log_repeats)
  qed
  show "snd (logEncounterFromSession e s st) = st"
    if "wave_of s \<noteq> None \<and> wave_of s = lastLoggedWaveIndex st"
    by (simp add: rep [OF that])
  have "fst (logEncounterFromSession e s st) = None \<and>
    currentRun (snd (logEncounterFromSession e s st)) = Some r \<and>
    lastLoggedWaveIndex (snd (logEncounterFromSession e s st)) =
           (case wave_of s of Some w \<Rightarrow> Some w | None \<Rightarrow> lastLoggedWaveIndex st) \<and>
    length (encounterBuffer (snd (logEncounterFromSession e s st))) =
           length (encounterBuffer st) +
           (if wave_of s \<noteq> None \<and> wave_of s = lastLoggedWaveIndex st then 0 else 1)"
  proof (cases "wave_of s \<noteq> None \<and> wave_of s = lastLoggedWaveIndex st")
    case True
    then obtain w where w: "wave_of s = Some w"
      by (metis not_None_eq)
    with True have "lastLoggedWaveIndex st = Some w"
      by simp
    then show ?thesis
      by (simp add: rep [OF True] assms(1) w)
  next
    case False
    then have new: "wave_of s = None \<or> wave_of s \<noteq> lastLoggedWaveIndex st"
      by simp
    from log_accepts [OF assms new, of e] obtain enc c where
      "logEncounterFromSession e s st =
        (None, st\<lparr>console := console st @ [c],
               encounterBuffer := encounterBuffer st @ [enc],
               battleIndex := battleIndex st + 1,
               lastLoggedWaveIndex :=
                 (case wave_of s of Some w \<Rightarrow> Some w | None \<Rightarrow> lastLoggedWaveIndex st)\<rparr>)"
      by blast
    then show ?thesis
      using False assms(1) by simp
  qed
  then show "fst (logEncounterFromSession e s st) = None"
    and "currentRun (snd (logEncounterFromSession e s st)) = Some r"
    and "lastLoggedWaveIndex (snd (logEncounterFromSession e s st)) =
           (case wave_of s of Some w \<Rightarrow> Some w | None \<Rightarrow> lastLoggedWaveIndex st)"
    and "length (encounterBuffer (snd (logEncounterFromSession e s st))) =
           length (encounterBuffer st) +
           (if wave_of s \<noteq> None \<and> wave_of s = lastLoggedWaveIndex st then 0 else 1)"
    by simp_all
qed

section \<open>Counting the encounters of a run\<close>

text \<open>
  Claim C1. Start a run, deliver N snapshots that are valid and of which none repeats the
  wave logged just before it, and end the run with metadata that leaves the run id a
  string: \<^verbatim>\<open>endRun\<close> returns, it requests exactly one download, and the document has
  \<^verbatim>\<open>total_battles\<close> N and N encounters whose \<^verbatim>\<open>battle_index\<close> values are 0 to N - 1 in
  the order of the appends. This holds from any state the script was in before the start.
\<close>

theorem start_deliver_endRun_counts:
  fixes snapshots :: "jsval list"
  defines "res \<equiv> \<lambda>e started ended runMeta before.
             endRun ended runMeta (deliver e snapshots (startRun started before))"
  assumes "\<forall>s\<in>set snapshots. valid_snapshot s"
    and "fresh_waves None snapshots"
    and "keeps_run_id_string runMeta"
  shows "fst (res e started ended runMeta before) = None \<and>
         downloads (snd (res e started ended runMeta before)) =
           downloads before @ [last (downloads (snd (res e started ended runMeta before)))] \<and>
         obj_get (own (run (url (last (downloads (snd (res e started ended runMeta before)))))))
           ''total_battles'' = JNum (of_nat (length snapshots)) \<and>
         length (encounters (url (last (downloads (snd (res e started ended runMeta before)))))) =
           length snapshots \<and>
         map battle_index
           (encounters (url (last (downloads (snd (res e started ended runMeta before)))))) =
           [0..<length snapshots]"
proof -
  let ?s1 = "startRun started before"
  let ?s2 = "deliver e snapshots ?s1"
  have s1: "currentRun ?s1 = Some (new_run started)" "lastLoggedWaveIndex ?s1 = None"
    "battleIndex ?s1 = 0" "encounterBuffer ?s1 = []" "downloads ?s1 = downloads before"
    by (simp_all add: startRun_def)
  have rid: "obj_get (own (new_run started)) ''run_id'' = JStr (''run_'' @ started)"
    by (simp add: new_run_def obj_get_def)
  have fw: "fresh_waves (lastLoggedWaveIndex ?s1) snapshots"
    using assms(3) by (simp add: s1)
  from deliver_valid [OF s1(1) run_get_own [OF rid] assms(2) fw, of e]
  have d: "currentRun ?s2 = Some (new_run started)" "downloads ?s2 = downloads before"
    "map battle_index (encounterBuffer ?s2) = [0..<length snapshots]"
    by (simp_all add: s1)
  from d(3) have len: "length (encounterBuffer ?s2) = length snapshots"
    by (metis length_map length_upt minus_nat.diff_0)
  have "is_string (obj_get (own (finish_run ended runMeta (length (encounterBuffer ?s2))
                      (new_run started))) ''run_id'')"
    by (rule finish_run_keeps_string_id [OF rid assms(4)])
  then obtain rid' where
    "obj_get (own (finish_run ended runMeta (length (encounterBuffer ?s2))
       (new_run started))) ''run_id'' = JStr rid'"
    by (auto simp: is_string_iff)
  from endRun_emits [OF d(1) run_get_own [OF this]]
  show ?thesis
    by (simp add: res_def d len obj_get_finish_run)
qed

theorem start_deliver_endRun_counts_witness:
  "valid_snapshot (snapshot 5 19 3) \<and> valid_snapshot (snapshot 6 16 4) \<and>
   fresh_waves None [snapshot 5 19 3, snapshot 6 16 4, snapshot 5 19 3] \<and>
   keeps_run_id_string (JObj []) \<and>
   fst (endRun evening (JObj [])
         (deliver plain_env [snapshot 5 19 3, snapshot 6 16 4, snapshot 5 19 3]
            (startRun noon init_state))) = None \<and>
   obj_get (own (run (url (last (downloads (snd (endRun evening (JObj [])
         (deliver plain_env [snapshot 5 19 3, snapshot 6 16 4, snapshot 5 19 3]
            (startRun noon init_state))))))))) ''total_battles'' = JNum 3 \<and>
   map battle_index (encounters (url (last (downloads (snd (endRun evening (JObj [])
         (deliver plain_env [snapshot 5 19 3, snapshot 6 16 4, snapshot 5 19 3]
            (startRun noon init_state)))))))) = [0, 1, 2]"
proof -
  have v: "valid_snapshot (snapshot 5 19 3)" "valid_snapshot (snapshot 6 16 4)"
    by (simp_all add: valid_snapshot_def snapshot_def obj_get_def)
  have f: "fresh_waves None [snapshot 5 19 3, snapshot 6 16 4, snapshot 5 19 3]"
    by (simp add: wave_of_def snapshot_def obj_get_def)
  have k: "keeps_run_id_string (JObj [])"
    by (simp add: keeps_run_id_string_def)
  have a: "\<forall>s\<in>set [snapshot 5 19 3, snapshot 6 16 4, snapshot 5 19 3]. valid_snapshot s"
    using v by simp
  have u: "[0..<3] = [0, 1, 2::nat]"
    by (simp add: upt_rec)
  from start_deliver_endRun_counts
    [OF a f k, where e = plain_env and started = noon and ended = evening
      and before = init_state]
  show ?thesis
    using v f k by (simp add: u)
qed

section \<open>Deduplication by the last logged wave\<close>

text \<open>
  Claim C2. The check compares the wave of a snapshot with the one wave logged last, and
  with nothing else. In a state with an active run, let \<open>a\<close> and \<open>c\<close> be valid snapshots
  of the same wave \<open>w\<close> and \<open>b\<close> a valid snapshot of another wave. A single snapshot is
  appended unless \<open>w\<close> is the wave logged last. Delivered one after the other, \<open>a\<close> and
  \<open>c\<close> leave the buffer that \<open>a\<close> alone leaves: the pair appends exactly one encounter
  when \<open>w\<close> was not already the wave logged last (and none when it was). With \<open>b\<close>
  between them all three are appended, as for the waves 5, 6, 5.
\<close>

theorem dedup_last_wave_only:
  assumes "currentRun st = Some r" and "run_get r ''run_id'' = JStr rid"
    and "valid_snapshot a" and "valid_snapshot b" and "valid_snapshot c"
    and "wave_of a = Some w" and "wave_of c = Some w"
    and "wave_of b = Some w'" and "w' \<noteq> w"
  shows "length (encounterBuffer (deliver e [a] st)) =
           length (encounterBuffer st) + (if lastLoggedWaveIndex st = Some w then 0 else 1) \<and>
         encounterBuffer (deliver e [a, c] st) = encounterBuffer (deliver e [a] st) \<and>
         length (encounterBuffer (deliver e [a, c] st)) =
           length (encounterBuffer st) + (if lastLoggedWaveIndex st = Some w then 0 else 1) \<and>
         length (encounterBuffer (deliver e [a, b, c] st)) =
           length (encounterBuffer st) + (if lastLoggedWaveIndex st = Some w then 2 else 3)"
proof -
  let ?sa = "snd (logEncounterFromSession e a st)"
  let ?sb = "snd (logEncounterFromSession e b ?sa)"
  note A = log_step [OF assms(1,2,3), of e]
  have la: "length (encounterBuffer ?sa) =
      length (encounterBuffer st) + (if lastLoggedWaveIndex st = Some w then 0 else 1)"
    using A(4) assms(6) by auto
  have wa: "lastLoggedWaveIndex ?sa = Some w"
    using A(3) assms(6) by simp
  have ac: "snd (logEncounterFromSession e c ?sa) = ?sa"
    using log_repeats [OF assms(7) wa, of e] by simp
  note B = log_step [OF A(2) assms(2,4), of e]
  have lb: "length (encounterBuffer ?sb) = length (encounterBuffer ?sa) + 1"
    using B(4) assms(8,9) wa by auto
  have wb: "lastLoggedWaveIndex ?sb = Some w'"
    using B(3) assms(8) by simp
  note C = log_step [OF B(2) assms(2,5), of e]
  have lc: "length (encounterBuffer (snd (logEncounterFromSession e c ?sb))) =
      length (encounterBuffer ?sb) + 1"
    using C(4) assms(7,9) wb by auto
  show ?thesis
    by (simp add: deliver_Cons deliver_Nil ac la lb lc)
qed

theorem dedup_last_wave_only_witness:
  "valid_snapshot (snapshot 5 19 3) \<and> valid_snapshot (snapshot 6 16 4) \<and>
   valid_snapshot (snapshot 5 19 8) \<and>
   wave_of (snapshot 5 19 3) = Some 5 \<and> wave_of (snapshot 5 19 8) = Some 5 \<and>
   wave_of (snapshot 6 16 4) = Some 6 \<and>
   lastLoggedWaveIndex (startRun noon init_state) = None \<and>
   length (encounterBuffer
     (deliver plain_env [snapshot 5 19 3, snapshot 5 19 8] (startRun noon init_state))) = 1 \<and>
   length (encounterBuffer
     (deliver plain_env [snapshot 5 19 3, snapshot 6 16 4, snapshot 5 19 8]
        (startRun noon init_state))) = 3"
proof -
  have v: "valid_snapshot (snapshot 5 19 3)" "valid_snapshot (snapshot 6 16 4)"
    "valid_snapshot (snapshot 5 19 8)"
    by (simp_all add: valid_snapshot_def snapshot_def obj_get_def)
  have w: "wave_of (snapshot 5 19 3) = Some 5" "wave_of (snapshot 5 19 8) = Some 5"
    "wave_of (snapshot 6 16 4) = Some 6"
    by (simp_all add: wave_of_def snapshot_def obj_get_def)
  have s: "currentRun (startRun noon init_state) = Some (new_run noon)"
    "lastLoggedWaveIndex (startRun noon init_state) = None"
    "encounterBuffer (startRun noon init_state) = []"
    by (simp_all add: startRun_def init_state_def)
  have i: "run_get (new_run noon) ''run_id'' = JStr (''run_'' @ noon)"
    by (simp add: new_run_def run_get_def)
  have n: "(6::rat) \<noteq> 5"
    by simp
  from dedup_last_wave_only [OF s(1) i v(1) v(2) v(3) w(1) w(2) w(3) n, of plain_env]
  show ?thesis
    using v w s by simp
qed

section \<open>Ending a run that was never started\<close>

text \<open>
  Claim C3 says that \<^verbatim>\<open>finalize\<close> without an active run fails with a failure the caller
  is told of. The script does not tell the caller: \<^verbatim>\<open>endRun\<close> writes a warning to the
  console and returns, and the \<^verbatim>\<open>END_RUN\<close> handler then answers \<^verbatim>\<open>{success: true}\<close>, the
  very answer it gives after a run that was ended and emitted.
\<close>

theorem endRun_without_run_acknowledged:
  "currentRun init_state = None \<and>
   onMessage evening (END_RUN JUndefined) init_state =
     (Some (JObj [(''success'', JBool True)]), None,
      init_state\<lparr>console :=
        [Warn [JStr ''Pokerogue tracker: endRun called but no active run'']]\<rparr>) \<and>
   fst (onMessage evening (END_RUN JUndefined) (startRun noon init_state)) =
     Some (JObj [(''success'', JBool True)])"
  by (simp add: init_state_def endRun_def startRun_def finish_run_def new_run_def
      object_assign_def run_set_def run_get_def Let_def)

text \<open>
  Claim C3, amended. Without an active run \<^verbatim>\<open>endRun\<close> throws nothing, requests no
  download and changes nothing but the console, where it leaves one warning; the
  \<^verbatim>\<open>END_RUN\<close> handler answers \<^verbatim>\<open>{success: true}\<close>.
\<close>

theorem endRun_without_run_warns:
  assumes "currentRun st = None"
  shows "endRun now runMeta st =
           (None, st\<lparr>console := console st @
              [Warn [JStr ''Pokerogue tracker: endRun called but no active run'']]\<rparr>) \<and>
         downloads (snd (endRun now runMeta st)) = downloads st \<and>
         onMessage now (END_RUN runMeta) st =
           (Some (JObj [(''success'', JBool True)]), None,
            st\<lparr>console := console st @
              [Warn [JStr ''Pokerogue tracker: endRun called but no active run'']]\<rparr>)"
  using assms by (simp add: endRun_def)

theorem endRun_without_run_warns_witness:
  "currentRun init_state = None \<and>
   endRun evening (JObj [(''result'', JStr ''WIN'')]) init_state =
     (None, init_state\<lparr>console :=
        [Warn [JStr ''Pokerogue tracker: endRun called but no active run'']]\<rparr>) \<and>
   downloads (snd (endRun evening (JObj [(''result'', JStr ''WIN'')]) init_state)) = []"
proof -
  have n: "currentRun init_state = None"
    by (simp add: init_state_def)
  from endRun_without_run_warns [OF n, of evening "JObj [(''result'', JStr ''WIN'')]"]
  show ?thesis
    using n by (simp add: init_state_def)
qed

section \<open>Starting a run over an active one\<close>

text \<open>
  Claim C4 says that \<^verbatim>\<open>start\<close> fails or does nothing while a run is active. \<^verbatim>\<open>startRun\<close>
  has no such guard: here a run with one logged encounter is active, the handler of
  \<^verbatim>\<open>START_RUN\<close> answers with success and the new run id, the logged encounter is gone
  from the buffer without a download, and the console got an ordinary log line.
\<close>

theorem startRun_over_active_run:
  "currentRun (deliver plain_env [snapshot 5 19 3] (startRun noon init_state)) =
     Some (new_run noon) \<and>
   length (encounterBuffer
     (deliver plain_env [snapshot 5 19 3] (startRun noon init_state))) = 1 \<and>
   fst (onMessage evening START_RUN
     (deliver plain_env [snapshot 5 19 3] (startRun noon init_state))) =
     Some (JObj [(''success'', JBool True), (''run_id'', JStr (''run_'' @ evening))]) \<and>
   currentRun (startRun evening
     (deliver plain_env [snapshot 5 19 3] (startRun noon init_state))) =
     Some (new_run evening) \<and>
   new_run evening \<noteq> new_run noon \<and>
   encounterBuffer (startRun evening
     (deliver plain_env [snapshot 5 19 3] (startRun noon init_state))) = [] \<and>
   downloads (startRun evening
     (deliver plain_env [snapshot 5 19 3] (startRun noon init_state))) = [] \<and>
   console (startRun evening
     (deliver plain_env [snapshot 5 19 3] (startRun noon init_state))) =
     console (deliver plain_env [snapshot 5 19 3] (startRun noon init_state)) @
     [Log [JStr ''Pokerogue tracker: started run'', JStr (''run_'' @ evening)]]"
  by (simp add: deliver_def logEncounterFromSession_def startRun_def init_state_def
      snapshot_def obj_get_def run_get_def new_run_def wave_of_def template_string_def
      Let_def noon_def evening_def)

text \<open>
  Claim C4, amended. \<^verbatim>\<open>startRun\<close> while a run is active replaces it: the new run, with
  the id of the new start time, is the one active run; the buffer, the battle counter and
  the last wave are reset; no download is requested; the console gets the line that every
  start logs, and the handler answers with success and the new id.
\<close>

theorem startRun_replaces_active_run:
  assumes "currentRun st = Some r"
  shows "currentRun (startRun now st) = Some (new_run now) \<and>
         obj_get (own (new_run now)) ''run_id'' = JStr (''run_'' @ now) \<and>
         encounterBuffer (startRun now st) = [] \<and>
         battleIndex (startRun now st) = 0 \<and>
         lastLoggedWaveIndex (startRun now st) = None \<and>
         downloads (startRun now st) = downloads st \<and>
         console (startRun now st) =
           console st @ [Log [JStr ''Pokerogue tracker: started run'', JStr (''run_'' @ now)]] \<and>
         onMessage now START_RUN st =
           (Some (JObj [(''success'', JBool True), (''run_id'', JStr (''run_'' @ now))]),
            None, startRun now st)"
  by (simp add: startRun_def new_run_def obj_get_def run_get_def)

theorem startRun_replaces_active_run_witness:
  "currentRun (startRun noon init_state) = Some (new_run noon) \<and>
   currentRun (startRun evening (startRun noon init_state)) = Some (new_run evening) \<and>
   encounterBuffer (startRun evening (startRun noon init_state)) = [] \<and>
   downloads (startRun evening (startRun noon init_state)) = []"
proof -
  have a: "currentRun (startRun noon init_state) = Some (new_run noon)"
    by (simp add: startRun_def)
  have d: "downloads (startRun noon init_state) = []"
    by (simp add: startRun_def init_state_def)
  from startRun_replaces_active_run [OF a, of evening]
  show ?thesis
    using a d by simp
qed

section \<open>The merge of the metadata\<close>

text \<open>
  Claim C5. \<^verbatim>\<open>endRun\<close> with a metadata object, on an active run, where the run id is a
  string after the merge, so that the call returns: the run of the emitted document has,
  for every field of the metadata, the value the metadata gives it (\<^verbatim>\<open>null\<close> included), and
  for every field the metadata does not have the value the run had before. Apart are the
  two fields \<^verbatim>\<open>endRun\<close> writes itself, \<^verbatim>\<open>total_battles\<close>, assigned after the merge, and
  \<^verbatim>\<open>end_timestamp\<close>, which keeps the stamp of line 37 when the metadata has no such field;
  and the key \<^verbatim>\<open>__proto__\<close>, which names no field of the run but the accessor of its
  prototype (what the merge does under it is told with claim C10). The other fields merge
  as stated whether or not the metadata has that key. The witness is
  \<^verbatim>\<open>finalize({result: "WIN"})\<close> on a fresh run.
\<close>

theorem endRun_merges_metadata:
  fixes kvs :: obj
  defines "doc \<equiv> \<lambda>now st. url (last (downloads (snd (endRun now (JObj kvs) st))))"
  assumes "currentRun st = Some r"
    and "distinct (map fst kvs)"
    and "is_string (run_get (finish_run now (JObj kvs) (length (encounterBuffer st)) r)
           ''run_id'')"
  shows "fst (endRun now (JObj kvs) st) = None \<and>
         (\<forall>(k, v)\<in>set kvs. k \<noteq> ''total_battles'' \<longrightarrow> k \<noteq> ''__proto__'' \<longrightarrow>
              obj_get (own (run (doc now st))) k = v) \<and>
         (\<forall>k. k \<notin> fst ` set kvs \<longrightarrow> k \<noteq> ''end_timestamp'' \<longrightarrow> k \<noteq> ''total_battles'' \<longrightarrow>
              obj_get (own (run (doc now st))) k = obj_get (own r) k)"
proof -
  from assms(4) obtain rid where
    "run_get (finish_run now (JObj kvs) (length (encounterBuffer st)) r) ''run_id'' = JStr rid"
    by (auto simp: is_string_iff)
  from endRun_emits [OF assms(2) this]
  have ok: "fst (endRun now (JObj kvs) st) = None"
    and d: "run (doc now st) = finish_run now (JObj kvs) (length (encounterBuffer st)) r"
    by (simp_all add: doc_def)
  have present: "obj_get (own (run (doc now st))) k = v"
    if "(k, v) \<in> set kvs" and "k \<noteq> ''total_battles''" and "k \<noteq> ''__proto__''" for k v
    using that map_of_rev_distinct [OF assms(3) that(1)]
    by (simp add: d obj_get_finish_run)
  have absent: "obj_get (own (run (doc now st))) k = obj_get (own r) k"
    if "k \<notin> fst ` set kvs" and "k \<noteq> ''end_timestamp''" and "k \<noteq> ''total_battles''" for k
    using that map_of_rev_absent [OF that(1)]
    by (simp add: d obj_get_finish_run)
  show ?thesis
    using ok present absent by blast
qed

theorem endRun_merges_metadata_witness:
  "currentRun (startRun noon init_state) = Some (new_run noon) \<and>
   fst (endRun evening (JObj [(''result'', JStr ''WIN'')]) (startRun noon init_state)) = None \<and>
   obj_get (own (run (url (last (downloads (snd
     (endRun evening (JObj [(''result'', JStr ''WIN'')]) (startRun noon init_state))))))))
     ''result'' = JStr ''WIN'' \<and>
   obj_get (own (run (url (last (downloads (snd
     (endRun evening (JObj [(''result'', JStr ''WIN'')]) (startRun noon init_state))))))))
     ''final_stage'' = JNull \<and>
   obj_get (own (run (url (last (downloads (snd
     (endRun evening (JObj [(''result'', JStr ''WIN'')]) (startRun noon init_state))))))))
     ''final_boss'' = JNull \<and>
   obj_get (own (run (url (last (downloads (snd
     (endRun evening (JObj [(''result'', JStr ''WIN'')]) (startRun noon init_state))))))))
     ''starter_species'' = JNull \<and>
   obj_get (own (run (url (last (downloads (snd
     (endRun evening (JObj [(''result'', JStr ''WIN'')]) (startRun noon init_state))))))))
     ''run_tag'' = JNull"
proof -
  have a: "currentRun (startRun noon init_state) = Some (new_run noon)"
    by (simp add: startRun_def)
  have d: "distinct (map fst [(''result'', JStr ''WIN'')])"
    by simp
  have i: "obj_get (own (new_run noon)) ''run_id'' = JStr (''run_'' @ noon)"
    by (simp add: new_run_def obj_get_def)
  have "obj_get (own (finish_run evening (JObj [(''result'', JStr ''WIN'')])
          (length (encounterBuffer (startRun noon init_state))) (new_run noon))) ''run_id'' =
        JStr (''run_'' @ noon)"
    by (simp add: obj_get_finish_run i)
  from run_get_own [OF this]
  have s: "is_string (run_get (finish_run evening (JObj [(''result'', JStr ''WIN'')])
             (length (encounterBuffer (startRun noon init_state))) (new_run noon)) ''run_id'')"
    by simp
  have n: "obj_get (own (new_run noon)) ''final_stage'' = JNull"
    "obj_get (own (new_run noon)) ''final_boss'' = JNull"
    "obj_get (own (new_run noon)) ''starter_species'' = JNull"
    "obj_get (own (new_run noon)) ''run_tag'' = JNull"
    by (simp_all add: new_run_def obj_get_def)
  from endRun_merges_metadata [OF a d s]
  show ?thesis
    using a n by simp
qed

section \<open>Snapshots that are not logged\<close>

text \<open>
  Claim C6. \<^verbatim>\<open>logEncounterFromSession\<close> returns without an error and leaves the whole
  state as it was (the buffer, the battle counter and the last wave with it) when no run
  is active, when the snapshot is falsy (an absent snapshot, \<^verbatim>\<open>undefined\<close> or \<^verbatim>\<open>null\<close>, is),
  when its \<^verbatim>\<open>enemyParty\<close> is not an array (a missing one is \<^verbatim>\<open>undefined\<close>), or when the
  array is empty.
\<close>

theorem logEncounter_rejects_unchanged:
  assumes "currentRun st = None \<or> \<not> truthy s \<or>
           (\<forall>xs. get_prop s ''enemyParty'' \<noteq> JArr xs) \<or>
           get_prop s ''enemyParty'' = JArr []"
  shows "logEncounterFromSession e s st = (None, st)"
  using assms
  by (auto simp: logEncounterFromSession_def split: option.splits jsval.splits list.splits)

theorem logEncounter_rejects_unchanged_witness:
  "currentRun init_state = None \<and>
   logEncounterFromSession plain_env (snapshot 5 19 3) init_state = (None, init_state) \<and>
   \<not> truthy JUndefined \<and>
   logEncounterFromSession plain_env JUndefined (startRun noon init_state) =
     (None, startRun noon init_state) \<and>
   \<not> truthy JNull \<and>
   logEncounterFromSession plain_env JNull (startRun noon init_state) =
     (None, startRun noon init_state) \<and>
   get_prop (JObj [(''waveIndex'', JNum 5)]) ''enemyParty'' = JUndefined \<and>
   logEncounterFromSession plain_env (JObj [(''waveIndex'', JNum 5)])
     (startRun noon init_state) = (None, startRun noon init_state) \<and>
   get_prop (JObj [(''waveIndex'', JNum 5), (''enemyParty'', JArr [])]) ''enemyParty'' =
     JArr [] \<and>
   logEncounterFromSession plain_env
     (JObj [(''waveIndex'', JNum 5), (''enemyParty'', JArr [])])
     (startRun noon init_state) = (None, startRun noon init_state)"
proof -
  have a: "currentRun init_state = None"
    by (simp add: init_state_def)
  have b: "\<not> truthy JUndefined" "\<not> truthy JNull"
    by simp_all
  have c: "get_prop (JObj [(''waveIndex'', JNum 5)]) ''enemyParty'' = JUndefined"
    by (simp add: obj_get_def)
  have d: "get_prop (JObj [(''waveIndex'', JNum 5), (''enemyParty'', JArr [])])
             ''enemyParty'' = JArr []"
    by (simp add: obj_get_def)
  have c': "\<forall>xs. get_prop (JObj [(''waveIndex'', JNum 5)]) ''enemyParty'' \<noteq> JArr xs"
    by (simp add: obj_get_def)
  show ?thesis
    using a b c d
      logEncounter_rejects_unchanged
        [of init_state "snapshot 5 19 3" plain_env, OF disjI1, OF a]
      logEncounter_rejects_unchanged
        [of "startRun noon init_state" JUndefined plain_env, OF disjI2, OF disjI1, OF b(1)]
      logEncounter_rejects_unchanged
        [of "startRun noon init_state" JNull plain_env, OF disjI2, OF disjI1, OF b(2)]
      logEncounter_rejects_unchanged
        [of "startRun noon init_state" "JObj [(''waveIndex'', JNum 5)]" plain_env,
          OF disjI2, OF disjI2, OF disjI1, OF c']
      logEncounter_rejects_unchanged
        [of "startRun noon init_state"
            "JObj [(''waveIndex'', JNum 5), (''enemyParty'', JArr [])]" plain_env,
          OF disjI2, OF disjI2, OF disjI2, OF d]
    by simp
qed

section \<open>What a successful end leaves\<close>

text \<open>
  Claim C7. When \<^verbatim>\<open>endRun\<close> is called with a run active and returns, it has requested
  exactly one download, that of the run as finished and of the buffered encounters, and
  it leaves no active run, an empty buffer, the battle counter at 0 and no last wave; a
  \<^verbatim>\<open>startRun\<close> after it gives a fresh run.
\<close>

theorem endRun_success_emits_once_and_clears:
  fixes now :: string and runMeta :: jsval and st :: state
  defines "st' \<equiv> snd (endRun now runMeta st)"
  assumes "currentRun st = Some r"
    and "fst (endRun now runMeta st) = None"
  shows "length (downloads st') = length (downloads st) + 1 \<and>
         butlast (downloads st') = downloads st \<and>
         url (last (downloads st')) =
           \<lparr>run = finish_run now runMeta (length (encounterBuffer st)) r,
            encounters = encounterBuffer st\<rparr> \<and>
         currentRun st' = None \<and>
         encounterBuffer st' = [] \<and>
         battleIndex st' = 0 \<and>
         lastLoggedWaveIndex st' = None \<and>
         currentRun (startRun next_start st') = Some (new_run next_start) \<and>
         encounterBuffer (startRun next_start st') = []"
proof -
  from endRun_ok_string [OF assms(2,3)] obtain rid where
    "run_get (finish_run now runMeta (length (encounterBuffer st)) r) ''run_id'' = JStr rid"
    by (auto simp: is_string_iff)
  from endRun_emits [OF assms(2) this]
  show ?thesis
    by (simp add: st'_def startRun_def)
qed

theorem endRun_success_emits_once_and_clears_witness:
  "currentRun (deliver plain_env [snapshot 5 19 3] (startRun noon init_state)) =
     Some (new_run noon) \<and>
   fst (endRun evening (JObj [(''result'', JStr ''WIN'')])
     (deliver plain_env [snapshot 5 19 3] (startRun noon init_state))) = None \<and>
   length (downloads (snd (endRun evening (JObj [(''result'', JStr ''WIN'')])
     (deliver plain_env [snapshot 5 19 3] (startRun noon init_state))))) = 1 \<and>
   currentRun (snd (endRun evening (JObj [(''result'', JStr ''WIN'')])
     (deliver plain_env [snapshot 5 19 3] (startRun noon init_state)))) = None \<and>
   encounterBuffer (snd (endRun evening (JObj [(''result'', JStr ''WIN'')])
     (deliver plain_env [snapshot 5 19 3] (startRun noon init_state)))) = [] \<and>
   battleIndex (snd (endRun evening (JObj [(''result'', JStr ''WIN'')])
     (deliver plain_env [snapshot 5 19 3] (startRun noon init_state)))) = 0 \<and>
   lastLoggedWaveIndex (snd (endRun evening (JObj [(''result'', JStr ''WIN'')])
     (deliver plain_env [snapshot 5 19 3] (startRun noon init_state)))) = None"
proof -
  let ?st = "deliver plain_env [snapshot 5 19 3] (startRun noon init_state)"
  have a: "currentRun ?st = Some (new_run noon)"
    and d: "downloads ?st = []"
    by (simp_all add: deliver_def logEncounterFromSession_def startRun_def init_state_def
        snapshot_def obj_get_def run_get_def new_run_def wave_of_def template_string_def
        Let_def)
  have i: "obj_get (own (new_run noon)) ''run_id'' = JStr (''run_'' @ noon)"
    by (simp add: new_run_def obj_get_def)
  have "obj_get (own (finish_run evening (JObj [(''result'', JStr ''WIN'')])
          (length (encounterBuffer ?st)) (new_run noon))) ''run_id'' = JStr (''run_'' @ noon)"
    by (simp add: obj_get_finish_run i)
  from endRun_emits [OF a run_get_own [OF this]]
  have ok: "fst (endRun evening (JObj [(''result'', JStr ''WIN'')]) ?st) = None"
    by simp
  from endRun_success_emits_once_and_clears [OF a ok]
  show ?thesis
    using a ok d by simp
qed

section \<open>The path of the emitted document\<close>

text \<open>
  Claim C8. When the run id of the finished run is the string \<open>rid\<close>, \<^verbatim>\<open>endRun\<close> returns
  and requests the download of the document, whose run has that id, under the file name
  \<^verbatim>\<open>pokerogue_runs/\<close>, then \<open>rid\<close> with every colon replaced by a hyphen and every other
  character kept, then \<^verbatim>\<open>.json\<close>; no colon is left in the name.
\<close>

theorem endRun_filename_from_run_id:
  fixes now :: string and runMeta :: jsval and st :: state
  defines "d \<equiv> last (downloads (snd (endRun now runMeta st)))"
  assumes "currentRun st = Some r"
    and "obj_get (own (finish_run now runMeta (length (encounterBuffer st)) r)) ''run_id'' =
           JStr rid"
  shows "fst (endRun now runMeta st) = None \<and>
         obj_get (own (run (url d))) ''run_id'' = JStr rid \<and>
         filename d =
           ''pokerogue_runs/'' @
           map (\<lambda>c. if c = CHR '':'' then CHR ''-'' else c) rid @ ''.json'' \<and>
         CHR '':'' \<notin> set (filename d)"
proof -
  from endRun_emits [OF assms(2) run_get_own [OF assms(3)]]
  show ?thesis
    using assms(3) by (auto simp: d_def replace_colons_def)
qed

theorem endRun_filename_from_run_id_witness:
  "currentRun (startRun noon init_state) = Some (new_run noon) \<and>
   obj_get (own (finish_run evening JUndefined
     (length (encounterBuffer (startRun noon init_state))) (new_run noon))) ''run_id'' =
     JStr ''run_2024-01-01T12:00:00.000Z'' \<and>
   fst (endRun evening JUndefined (startRun noon init_state)) = None \<and>
   filename (last (downloads (snd (endRun evening JUndefined (startRun noon init_state))))) =
     ''pokerogue_runs/run_2024-01-01T12-00-00.000Z.json''"
proof -
  have a: "currentRun (startRun noon init_state) = Some (new_run noon)"
    by (simp add: startRun_def)
  have i: "obj_get (own (new_run noon)) ''run_id'' = JStr ''run_2024-01-01T12:00:00.000Z''"
    by (simp add: new_run_def obj_get_def noon_def)
  have f: "obj_get (own (finish_run evening JUndefined
     (length (encounterBuffer (startRun noon init_state))) (new_run noon))) ''run_id'' =
     JStr ''run_2024-01-01T12:00:00.000Z''"
    by (simp add: obj_get_finish_run i)
  from endRun_filename_from_run_id [OF a f]
  show ?thesis
    using a f by simp
qed

section \<open>The level of the enemy\<close>

text \<open>
  Claim C9. When a valid snapshot that does not repeat the last wave is logged in an
  active run and the \<^verbatim>\<open>level\<close> of its first enemy is falsy, the call appends one encounter
  and its \<^verbatim>\<open>enemy_level\<close> is \<^verbatim>\<open>null\<close>. The number 0 is falsy, so a level 0 is recorded as
  \<^verbatim>\<open>null\<close>: the witness.
\<close>

theorem falsy_level_recorded_null:
  fixes e :: env and s :: jsval and st :: state
  defines "st' \<equiv> snd (logEncounterFromSession e s st)"
  assumes "currentRun st = Some r" and "run_get r ''run_id'' = JStr rid"
    and "valid_snapshot s"
    and "wave_of s = None \<or> wave_of s \<noteq> lastLoggedWaveIndex st"
    and "\<not> truthy (get_prop (first_enemy s) ''level'')"
  shows "fst (logEncounterFromSession e s st) = None \<and>
         length (encounterBuffer st') = length (encounterBuffer st) + 1 \<and>
         butlast (encounterBuffer st') = encounterBuffer st \<and>
         enemy_level (last (encounterBuffer st')) = JNull"
proof -
  from log_accepts [OF assms(2,3,4,5), of e] obtain enc c where
    "logEncounterFromSession e s st =
       (None, st\<lparr>console := console st @ [c],
               encounterBuffer := encounterBuffer st @ [enc],
               battleIndex := battleIndex st + 1,
               lastLoggedWaveIndex :=
                 (case wave_of s of Some w \<Rightarrow> Some w | None \<Rightarrow> lastLoggedWaveIndex st)\<rparr>)"
    and "enemy_level enc =
         (if truthy (get_prop (first_enemy s) ''level'')
          then get_prop (first_enemy s) ''level'' else JNull)"
    by blast
  then show ?thesis
    using assms(6) by (simp add: st'_def)
qed

theorem falsy_level_recorded_null_witness:
  "currentRun (startRun noon init_state) = Some (new_run noon) \<and>
   valid_snapshot (snapshot 5 19 0) \<and>
   get_prop (first_enemy (snapshot 5 19 0)) ''level'' = JNum 0 \<and>
   \<not> truthy (JNum 0) \<and>
   length (encounterBuffer
     (snd (logEncounterFromSession plain_env (snapshot 5 19 0) (startRun noon init_state)))) = 1 \<and>
   enemy_level (last (encounterBuffer
     (snd (logEncounterFromSession plain_env (snapshot 5 19 0) (startRun noon init_state))))) =
     JNull"
proof -
  have a: "currentRun (startRun noon init_state) = Some (new_run noon)"
    and b: "encounterBuffer (startRun noon init_state) = []"
    by (simp_all add: startRun_def)
  have i: "run_get (new_run noon) ''run_id'' = JStr (''run_'' @ noon)"
    by (simp add: new_run_def run_get_def)
  have v: "valid_snapshot (snapshot 5 19 0)"
    by (simp add: valid_snapshot_def snapshot_def obj_get_def)
  have w: "wave_of (snapshot 5 19 0) = None \<or>
           wave_of (snapshot 5 19 0) \<noteq> lastLoggedWaveIndex (startRun noon init_state)"
    by (simp add: wave_of_def snapshot_def obj_get_def startRun_def)
  have l: "get_prop (first_enemy (snapshot 5 19 0)) ''level'' = JNum 0"
    by (simp add: first_enemy_def snapshot_def obj_get_def)
  have f: "\<not> truthy (get_prop (first_enemy (snapshot 5 19 0)) ''level'')"
    by (simp add: l)
  from falsy_level_recorded_null [OF a i v w f, of plain_env]
  show ?thesis
    using a b v l by simp
qed

section \<open>The merge takes every key but one\<close>

text \<open>
  Claim C10 says that every enumerable key of the metadata is copied into the run. The
  key \<^verbatim>\<open>__proto__\<close> is not: line 41 assigns it like any other key, and on the run of
  \<^verbatim>\<open>startRun\<close> that assignment goes to the setter of \<^verbatim>\<open>Object.prototype\<close>, which makes no
  property. Here the metadata \<^verbatim>\<open>{"__proto__": {"hidden": 1}, "result": "WIN"}\<close> ends a fresh
  run: the call returns, \<^verbatim>\<open>result\<close> is copied, and the emitted run has the nine
  properties \<^verbatim>\<open>startRun\<close> gave it and no other. With the number 5 under that key it is
  the same.
\<close>

theorem endRun_proto_key_not_copied:
  "fst (endRun evening
     (JObj [(''__proto__'', JObj [(''hidden'', JNum 1)]), (''result'', JStr ''WIN'')])
     (startRun noon init_state)) = None \<and>
   map fst (own (run (url (last (downloads (snd (endRun evening
     (JObj [(''__proto__'', JObj [(''hidden'', JNum 1)]), (''result'', JStr ''WIN'')])
     (startRun noon init_state)))))))) =
     [''run_id'', ''start_timestamp'', ''end_timestamp'', ''result'', ''final_stage'',
      ''final_boss'', ''starter_species'', ''total_battles'', ''run_tag''] \<and>
   obj_get (own (run (url (last (downloads (snd (endRun evening
     (JObj [(''__proto__'', JObj [(''hidden'', JNum 1)]), (''result'', JStr ''WIN'')])
     (startRun noon init_state)))))))) ''result'' = JStr ''WIN'' \<and>
   map_of (own (run (url (last (downloads (snd (endRun evening
     (JObj [(''__proto__'', JObj [(''hidden'', JNum 1)]), (''result'', JStr ''WIN'')])
     (startRun noon init_state)))))))) ''__proto__'' = None \<and>
   map fst (own (run (url (last (downloads (snd (endRun evening
     (JObj [(''__proto__'', JNum 5)]) (startRun noon init_state)))))))) =
     [''run_id'', ''start_timestamp'', ''end_timestamp'', ''result'', ''final_stage'',
      ''final_boss'', ''starter_species'', ''total_battles'', ''run_tag'']"
  by (simp add: endRun_def finish_run_def object_assign_def run_set_def run_get_def
      startRun_def init_state_def new_run_def obj_get_def Let_def)

text \<open>
  Claim C10, amended. Let the metadata be an object, or an array, with the properties
  \<open>kvs\<close>, and \<open>r'\<close> the run as lines 37 to 44 leave it. Every property of the metadata
  but \<^verbatim>\<open>total_battles\<close> and \<^verbatim>\<open>__proto__\<close> has in \<open>r'\<close> the value the metadata gives it,
  whatever its name: \<^verbatim>\<open>run_id\<close>, \<^verbatim>\<open>start_timestamp\<close> and \<^verbatim>\<open>end_timestamp\<close>, stamped before
  the merge, are overwritten like any other. \<^verbatim>\<open>total_battles\<close>, assigned after the merge,
  is the number of buffered encounters. Under \<^verbatim>\<open>__proto__\<close> nothing is copied into a run
  that has no own property of that name and whose assignments under it reach the setter,
  as every run of \<^verbatim>\<open>startRun\<close> is: \<open>r'\<close> has no such property. \<open>r'\<close> is the run of the
  emitted document when \<^verbatim>\<open>endRun\<close> returns, and stays the active run when it throws,
  which it does exactly when the run id it reads from \<open>r'\<close> is not a string.
\<close>

theorem endRun_merge_unfiltered_but_proto:
  fixes now :: string and runMeta :: jsval and st :: state and r :: run_object
  defines "r' \<equiv> finish_run now runMeta (length (encounterBuffer st)) r"
  assumes "currentRun st = Some r"
    and "assign_source runMeta = Some kvs"
    and "distinct (map fst kvs)"
  shows "(\<forall>(k, v)\<in>set kvs. k \<noteq> ''total_battles'' \<longrightarrow> k \<noteq> ''__proto__'' \<longrightarrow>
              obj_get (own r') k = v) \<and>
         obj_get (own r') ''total_battles'' = JNum (of_nat (length (encounterBuffer st))) \<and>
         (map_of (own r) ''__proto__'' = None \<longrightarrow> reaches_setter (proto r) \<longrightarrow>
              map_of (own r') ''__proto__'' = None) \<and>
         (case fst (endRun now runMeta st) of
            None \<Rightarrow> run (url (last (downloads (snd (endRun now runMeta st))))) = r'
          | Some err \<Rightarrow> currentRun (snd (endRun now runMeta st)) = Some r') \<and>
         (fst (endRun now runMeta st) = None \<longleftrightarrow> is_string (run_get r' ''run_id''))"
proof -
  have present: "obj_get (own r') k = v"
    if "(k, v) \<in> set kvs" and "k \<noteq> ''total_battles''" and "k \<noteq> ''__proto__''" for k v
    using that map_of_rev_distinct [OF assms(4) that(1)]
    by (simp add: r'_def obj_get_finish_run assms(3))
  have total: "obj_get (own r') ''total_battles'' = JNum (of_nat (length (encounterBuffer st)))"
    by (simp add: r'_def obj_get_finish_run)
  have noproto: "map_of (own r') ''__proto__'' = None"
    if "map_of (own r) ''__proto__'' = None" and "reaches_setter (proto r)"
    unfolding r'_def by (rule no_own_proto_finish_run [OF that assms(3,4)])
  have out: "(case fst (endRun now runMeta st) of
            None \<Rightarrow> run (url (last (downloads (snd (endRun now runMeta st))))) = r'
          | Some err \<Rightarrow> currentRun (snd (endRun now runMeta st)) = Some r') \<and>
         (fst (endRun now runMeta st) = None \<longleftrightarrow> is_string (run_get r' ''run_id''))"
  proof (cases "is_string (run_get r' ''run_id'')")
    case True
    then obtain rid where "run_get r' ''run_id'' = JStr rid"
      by (auto simp: is_string_iff)
    from endRun_emits [OF assms(2) this [unfolded r'_def]] True
    show ?thesis
      by (simp add: r'_def)
  next
    case False
    from endRun_throws [OF assms(2) False [unfolded r'_def]] False
    show ?thesis
      by (simp add: r'_def)
  qed
  show ?thesis
    using present total noproto out by blast
qed

theorem endRun_merge_unfiltered_but_proto_witness:
  "currentRun (deliver plain_env [snapshot 5 19 3] (startRun noon init_state)) =
     Some (new_run noon) \<and>
   length (encounterBuffer
     (deliver plain_env [snapshot 5 19 3] (startRun noon init_state))) = 1 \<and>
   map_of (own (new_run noon)) ''__proto__'' = None \<and>
   reaches_setter (proto (new_run noon)) \<and>
   fst (endRun evening
     (JObj [(''run_id'', JStr ''mine:1''), (''start_timestamp'', JStr ''then''),
            (''end_timestamp'', JNull), (''total_battles'', JNum 99),
            (''weather'', JStr ''rain''), (''__proto__'', JObj [(''hidden'', JNum 1)])])
     (deliver plain_env [snapshot 5 19 3] (startRun noon init_state))) = None \<and>
   map (obj_get (own (run (url (last (downloads (snd (endRun evening
     (JObj [(''run_id'', JStr ''mine:1''), (''start_timestamp'', JStr ''then''),
            (''end_timestamp'', JNull), (''total_battles'', JNum 99),
            (''weather'', JStr ''rain''), (''__proto__'', JObj [(''hidden'', JNum 1)])])
     (deliver plain_env [snapshot 5 19 3] (startRun noon init_state))))))))))
     [''run_id'', ''start_timestamp'', ''end_timestamp'', ''total_battles'', ''weather''] =
     [JStr ''mine:1'', JStr ''then'', JNull, JNum 1, JStr ''rain''] \<and>
   map_of (own (run (url (last (downloads (snd (endRun evening
     (JObj [(''run_id'', JStr ''mine:1''), (''start_timestamp'', JStr ''then''),
            (''end_timestamp'', JNull), (''total_battles'', JNum 99),
            (''weather'', JStr ''rain''), (''__proto__'', JObj [(''hidden'', JNum 1)])])
     (deliver plain_env [snapshot 5 19 3] (startRun noon init_state))))))))) ''__proto__'' =
     None \<and>
   fst (endRun evening (JObj [(''run_id'', JNum 7)])
     (deliver plain_env [snapshot 5 19 3] (startRun noon init_state))) = Some TypeError \<and>
   map_option (\<lambda>r. obj_get (own r) ''run_id'')
     (currentRun (snd (endRun evening (JObj [(''run_id'', JNum 7)])
        (deliver plain_env [snapshot 5 19 3] (startRun noon init_state))))) =
     Some (JNum 7)"
proof -
  let ?st = "deliver plain_env [snapshot 5 19 3] (startRun noon init_state)"
  let ?m = "[(''run_id'', JStr ''mine:1''), (''start_timestamp'', JStr ''then''),
            (''end_timestamp'', JNull), (''total_battles'', JNum 99),
            (''weather'', JStr ''rain''), (''__proto__'', JObj [(''hidden'', JNum 1)])]"
  have a: "currentRun ?st = Some (new_run noon)"
    and l: "length (encounterBuffer ?st) = 1"
    by (simp_all add: deliver_def logEncounterFromSession_def startRun_def init_state_def
        snapshot_def obj_get_def run_get_def new_run_def wave_of_def template_string_def
        Let_def)
  have n: "map_of (own (new_run noon)) ''__proto__'' = None"
    "reaches_setter (proto (new_run noon))"
    by (simp_all add: new_run_def)
  have s: "assign_source (JObj ?m) = Some ?m"
    "assign_source (JObj [(''run_id'', JNum 7)]) = Some [(''run_id'', JNum 7)]"
    by simp_all
  have d: "distinct (map fst ?m)" "distinct (map fst [(''run_id'', JNum 7)])"
    by simp_all
  let ?r1 = "finish_run evening (JObj ?m) (length (encounterBuffer ?st)) (new_run noon)"
  let ?r2 = "finish_run evening (JObj [(''run_id'', JNum 7)]) (length (encounterBuffer ?st))
               (new_run noon)"
  note T1 = endRun_merge_unfiltered_but_proto [OF a s(1) d(1), of evening]
  note T2 = endRun_merge_unfiltered_but_proto [OF a s(2) d(2), of evening]
  from T1 have p1: "map (obj_get (own ?r1))
      [''run_id'', ''start_timestamp'', ''end_timestamp'', ''total_battles'', ''weather''] =
      [JStr ''mine:1'', JStr ''then'', JNull, JNum 1, JStr ''rain'']"
    by (simp add: l)
  from T1 n have q1: "map_of (own ?r1) ''__proto__'' = None"
    by blast
  from p1 have "obj_get (own ?r1) ''run_id'' = JStr ''mine:1''"
    by simp
  from run_get_own [OF this] have "is_string (run_get ?r1 ''run_id'')"
    by simp
  with T1 have ok1: "fst (endRun evening (JObj ?m) ?st) = None"
    by blast
  with T1 have doc1: "run (url (last (downloads (snd (endRun evening (JObj ?m) ?st))))) = ?r1"
    by simp
  from T2 have p2: "obj_get (own ?r2) ''run_id'' = JNum 7"
    by simp
  then have "run_get ?r2 ''run_id'' = JNum 7"
    by (simp add: run_get_def obj_get_def split: option.splits)
  then have "\<not> is_string (run_get ?r2 ''run_id'')"
    by simp
  with T2 have "fst (endRun evening (JObj [(''run_id'', JNum 7)]) ?st) \<noteq> None"
    by blast
  then obtain err where "fst (endRun evening (JObj [(''run_id'', JNum 7)]) ?st) = Some err"
    by auto
  then have ko2: "fst (endRun evening (JObj [(''run_id'', JNum 7)]) ?st) = Some TypeError"
    by (cases err) simp
  with T2 have cur2: "currentRun (snd (endRun evening (JObj [(''run_id'', JNum 7)]) ?st)) =
      Some ?r2"
    by simp
  show ?thesis
    using a l n ok1 ko2 p1 p2 q1 by (simp add: doc1 cur2)
qed

end
